theory Spec2Isabelle
  imports Main
begin

section \<open>kern/typing.py: pitches\<close>

text \<open>
  The enumeration \<open>Pitch\<close> of kern/typing.py. Every member has a name (the letter run
  written in a score) and a value, the pair \<open>(octave, diatonic index)\<close>. The members
  are listed in the order of the class body.
\<close>

datatype (plugins only: code) Pitch =
    Pitch_C | Pitch_D | Pitch_E | Pitch_F | Pitch_G | Pitch_A | Pitch_B
  | Pitch_CC | Pitch_DD | Pitch_EE | Pitch_FF | Pitch_GG | Pitch_AA | Pitch_BB
  | Pitch_CCC | Pitch_DDD | Pitch_EEE | Pitch_FFF | Pitch_GGG | Pitch_AAA | Pitch_BBB
  | Pitch_CCCC | Pitch_DDDD | Pitch_EEEE | Pitch_FFFF | Pitch_GGGG | Pitch_AAAA | Pitch_BBBB
  | Pitch_c | Pitch_d | Pitch_e | Pitch_f | Pitch_g | Pitch_a | Pitch_b
  | Pitch_cc | Pitch_dd | Pitch_ee | Pitch_ff | Pitch_gg | Pitch_aa | Pitch_bb
  | Pitch_ccc | Pitch_ddd | Pitch_eee | Pitch_fff | Pitch_ggg | Pitch_aaa | Pitch_bbb
  | Pitch_cccc | Pitch_dddd | Pitch_eeee | Pitch_ffff | Pitch_gggg | Pitch_aaaa | Pitch_bbbb

primrec pitch_value :: "Pitch \<Rightarrow> int \<times> int" where
  "pitch_value Pitch_C = (3, 1)"
| "pitch_value Pitch_D = (3, 2)"
| "pitch_value Pitch_E = (3, 3)"
| "pitch_value Pitch_F = (3, 4)"
| "pitch_value Pitch_G = (3, 5)"
| "pitch_value Pitch_A = (3, 6)"
| "pitch_value Pitch_B = (3, 7)"
| "pitch_value Pitch_CC = (2, 1)"
| "pitch_value Pitch_DD = (2, 2)"
| "pitch_value Pitch_EE = (2, 3)"
| "pitch_value Pitch_FF = (2, 4)"
| "pitch_value Pitch_GG = (2, 5)"
| "pitch_value Pitch_AA = (2, 6)"
| "pitch_value Pitch_BB = (2, 7)"
| "pitch_value Pitch_CCC = (1, 1)"
| "pitch_value Pitch_DDD = (1, 2)"
| "pitch_value Pitch_EEE = (1, 3)"
| "pitch_value Pitch_FFF = (1, 4)"
| "pitch_value Pitch_GGG = (1, 5)"
| "pitch_value Pitch_AAA = (1, 6)"
| "pitch_value Pitch_BBB = (1, 7)"
| "pitch_value Pitch_CCCC = (0, 1)"
| "pitch_value Pitch_DDDD = (0, 2)"
| "pitch_value Pitch_EEEE = (0, 3)"
| "pitch_value Pitch_FFFF = (0, 4)"
| "pitch_value Pitch_GGGG = (0, 5)"
| "pitch_value Pitch_AAAA = (0, 6)"
| "pitch_value Pitch_BBBB = (0, 7)"
| "pitch_value Pitch_c = (4, 1)"
| "pitch_value Pitch_d = (4, 2)"
| "pitch_value Pitch_e = (4, 3)"
| "pitch_value Pitch_f = (4, 4)"
| "pitch_value Pitch_g = (4, 5)"
| "pitch_value Pitch_a = (4, 6)"
| "pitch_value Pitch_b = (4, 7)"
| "pitch_value Pitch_cc = (5, 1)"
| "pitch_value Pitch_dd = (5, 2)"
| "pitch_value Pitch_ee = (5, 3)"
| "pitch_value Pitch_ff = (5, 4)"
| "pitch_value Pitch_gg = (5, 5)"
| "pitch_value Pitch_aa = (5, 6)"
| "pitch_value Pitch_bb = (5, 7)"
| "pitch_value Pitch_ccc = (6, 1)"
| "pitch_value Pitch_ddd = (6, 2)"
| "pitch_value Pitch_eee = (6, 3)"
| "pitch_value Pitch_fff = (6, 4)"
| "pitch_value Pitch_ggg = (6, 5)"
| "pitch_value Pitch_aaa = (6, 6)"
| "pitch_value Pitch_bbb = (6, 7)"
| "pitch_value Pitch_cccc = (7, 1)"
| "pitch_value Pitch_dddd = (7, 2)"
| "pitch_value Pitch_eeee = (7, 3)"
| "pitch_value Pitch_ffff = (7, 4)"
| "pitch_value Pitch_gggg = (7, 5)"
| "pitch_value Pitch_aaaa = (7, 6)"
| "pitch_value Pitch_bbbb = (7, 7)"

primrec pitch_name :: "Pitch \<Rightarrow> string" where
  "pitch_name Pitch_C = ''C''"
| "pitch_name Pitch_D = ''D''"
| "pitch_name Pitch_E = ''E''"
| "pitch_name Pitch_F = ''F''"
| "pitch_name Pitch_G = ''G''"
| "pitch_name Pitch_A = ''A''"
| "pitch_name Pitch_B = ''B''"
| "pitch_name Pitch_CC = ''CC''"
| "pitch_name Pitch_DD = ''DD''"
| "pitch_name Pitch_EE = ''EE''"
| "pitch_name Pitch_FF = ''FF''"
| "pitch_name Pitch_GG = ''GG''"
| "pitch_name Pitch_AA = ''AA''"
| "pitch_name Pitch_BB = ''BB''"
| "pitch_name Pitch_CCC = ''CCC''"
| "pitch_name Pitch_DDD = ''DDD''"
| "pitch_name Pitch_EEE = ''EEE''"
| "pitch_name Pitch_FFF = ''FFF''"
| "pitch_name Pitch_GGG = ''GGG''"
| "pitch_name Pitch_AAA = ''AAA''"
| "pitch_name Pitch_BBB = ''BBB''"
| "pitch_name Pitch_CCCC = ''CCCC''"
| "pitch_name Pitch_DDDD = ''DDDD''"
| "pitch_name Pitch_EEEE = ''EEEE''"
| "pitch_name Pitch_FFFF = ''FFFF''"
| "pitch_name Pitch_GGGG = ''GGGG''"
| "pitch_name Pitch_AAAA = ''AAAA''"
| "pitch_name Pitch_BBBB = ''BBBB''"
| "pitch_name Pitch_c = ''c''"
| "pitch_name Pitch_d = ''d''"
| "pitch_name Pitch_e = ''e''"
| "pitch_name Pitch_f = ''f''"
| "pitch_name Pitch_g = ''g''"
| "pitch_name Pitch_a = ''a''"
| "pitch_name Pitch_b = ''b''"
| "pitch_name Pitch_cc = ''cc''"
| "pitch_name Pitch_dd = ''dd''"
| "pitch_name Pitch_ee = ''ee''"
| "pitch_name Pitch_ff = ''ff''"
| "pitch_name Pitch_gg = ''gg''"
| "pitch_name Pitch_aa = ''aa''"
| "pitch_name Pitch_bb = ''bb''"
| "pitch_name Pitch_ccc = ''ccc''"
| "pitch_name Pitch_ddd = ''ddd''"
| "pitch_name Pitch_eee = ''eee''"
| "pitch_name Pitch_fff = ''fff''"
| "pitch_name Pitch_ggg = ''ggg''"
| "pitch_name Pitch_aaa = ''aaa''"
| "pitch_name Pitch_bbb = ''bbb''"
| "pitch_name Pitch_cccc = ''cccc''"
| "pitch_name Pitch_dddd = ''dddd''"
| "pitch_name Pitch_eeee = ''eeee''"
| "pitch_name Pitch_ffff = ''ffff''"
| "pitch_name Pitch_gggg = ''gggg''"
| "pitch_name Pitch_aaaa = ''aaaa''"
| "pitch_name Pitch_bbbb = ''bbbb''"

definition Pitch_members :: "Pitch list" where
  "Pitch_members =
    [Pitch_C, Pitch_D, Pitch_E, Pitch_F, Pitch_G, Pitch_A, Pitch_B,
     Pitch_CC, Pitch_DD, Pitch_EE, Pitch_FF, Pitch_GG, Pitch_AA, Pitch_BB,
     Pitch_CCC, Pitch_DDD, Pitch_EEE, Pitch_FFF, Pitch_GGG, Pitch_AAA, Pitch_BBB,
     Pitch_CCCC, Pitch_DDDD, Pitch_EEEE, Pitch_FFFF, Pitch_GGGG, Pitch_AAAA, Pitch_BBBB,
     Pitch_c, Pitch_d, Pitch_e, Pitch_f, Pitch_g, Pitch_a, Pitch_b,
     Pitch_cc, Pitch_dd, Pitch_ee, Pitch_ff, Pitch_gg, Pitch_aa, Pitch_bb,
     Pitch_ccc, Pitch_ddd, Pitch_eee, Pitch_fff, Pitch_ggg, Pitch_aaa, Pitch_bbb,
     Pitch_cccc, Pitch_dddd, Pitch_eeee, Pitch_ffff, Pitch_gggg, Pitch_aaaa, Pitch_bbbb]"

text \<open>
  The exceptions of the typing module: a failed \<open>assert\<close> carries its message, a
  failed \<open>list.index\<close> or enumeration lookup is a \<open>ValueError\<close>.
\<close>

datatype py_error = AssertionError string | ValueError

text \<open>\<open>Pitch(v)\<close>: the member whose value is \<open>v\<close>, or \<open>ValueError\<close>.\<close>

definition Pitch_of_value :: "int \<times> int \<Rightarrow> py_error + Pitch" where
  "Pitch_of_value v =
     (case find (\<lambda>p. pitch_value p = v) Pitch_members of
        None \<Rightarrow> Inl ValueError
      | Some p \<Rightarrow> Inr p)"

text \<open>
  \<open>str.lower\<close> on the ASCII letters. (A character outside ASCII never lowers to one
  of the seven note letters, so the table is enough for every lookup below.)
\<close>

definition ascii_uppercase :: string where
  "ascii_uppercase = ''ABCDEFGHIJKLMNOPQRSTUVWXYZ''"

definition ascii_lowercase :: string where
  "ascii_lowercase = ''abcdefghijklmnopqrstuvwxyz''"

definition lower_char :: "char \<Rightarrow> char" where
  "lower_char c =
     (case map_of (zip ascii_uppercase ascii_lowercase) c of
        Some l \<Rightarrow> l
      | None \<Rightarrow> c)"

definition lower :: "string \<Rightarrow> string" where
  "lower s = map lower_char s"

text \<open>\<open>list.index\<close>: the position of the first equal element, or \<open>ValueError\<close>.\<close>

fun list_index :: "'a list \<Rightarrow> 'a \<Rightarrow> py_error + int" where
  "list_index [] x = Inl ValueError"
| "list_index (y # ys) x =
     (if y = x then Inr 0
      else (case list_index ys x of Inl e \<Rightarrow> Inl e | Inr i \<Rightarrow> Inr (i + 1)))"

definition pitch_from_note_and_octave :: "string \<Rightarrow> int \<Rightarrow> py_error + Pitch" where
  "pitch_from_note_and_octave note octave =
     (case list_index [''c'', ''d'', ''e'', ''f'', ''g'', ''a'', ''b''] (lower note) of
        Inl e \<Rightarrow> Inl e
      | Inr index \<Rightarrow>
          if \<not> index \<ge> 0
          then Inl (AssertionError (''Invalid note name: '' @ note @ '', expected [A-Za-z].''))
          else Pitch_of_value (octave, 1 + index))"

text \<open>
  \<open>CLEF_RE = ^\*clef([a-zA-Z])([0-9])$\<close>, applied with \<open>match\<close>. The classes are
  written out, so they hold ASCII letters and digits only. Without the multi-line flag
  \<open>$\<close> matches at the end of the string and also just before a newline that ends the
  string. The result is the pair of the two groups.
\<close>

definition is_ascii_letter :: "char \<Rightarrow> bool" where
  "is_ascii_letter c \<longleftrightarrow> c \<in> set (ascii_lowercase @ ascii_uppercase)"

definition is_ascii_digit :: "char \<Rightarrow> bool" where
  "is_ascii_digit c \<longleftrightarrow> c \<in> set ''0123456789''"

definition newline :: char where
  "newline = CHR 0x0A"

definition CLEF_RE_match :: "string \<Rightarrow> (string \<times> string) option" where
  "CLEF_RE_match s =
     (if take 5 s = ''*clef'' \<and> 7 \<le> length s
         \<and> is_ascii_letter (s ! 5) \<and> is_ascii_digit (s ! 6)
         \<and> (drop 7 s = [] \<or> drop 7 s = [newline])
      then Some ([s ! 5], [s ! 6])
      else None)"

text \<open>\<open>int(s)\<close> on a string of ASCII digits.\<close>

definition digit_value :: "char \<Rightarrow> int" where
  "digit_value c = int (length (takeWhile (\<lambda>d. d \<noteq> c) ''0123456789''))"

definition int_of_digits :: "string \<Rightarrow> int" where
  "int_of_digits s = foldl (\<lambda>n c. 10 * n + digit_value c) 0 s"

definition pitch_from_clef :: "string \<Rightarrow> py_error + Pitch" where
  "pitch_from_clef clef =
     (case CLEF_RE_match clef of
        None \<Rightarrow> Inl (AssertionError ''Invalid clef specification.'')
      | Some (name, octave) \<Rightarrow> pitch_from_note_and_octave name (int_of_digits octave))"

text \<open>\<open>Pitch[name]\<close>: the member with that name, if there is one.\<close>

definition Pitch_of_name :: "string \<Rightarrow> Pitch option" where
  "Pitch_of_name n = find (\<lambda>p. pitch_name p = n) Pitch_members"

section \<open>kern/typing.py: symbols\<close>

text \<open>
  The data classes. \<open>Note\<close> has two required fields and nine with defaults; its
  generated constructor takes the nine as keyword arguments, \<open>None\<close> here when the
  caller leaves one out. \<open>Symbol\<close> has one constructor for each subclass; \<open>Note_of\<close>
  is a note as a symbol, and the field of \<open>Bar\<close> is its \<open>symbol\<close> string.
\<close>

record Note =
  pitch :: Pitch
  duration :: int
  flats :: int
  sharps :: int
  starts_tie :: bool
  ends_tie :: bool
  starts_beam :: int
  ends_beam :: int
  is_gracenote :: bool
  has_left_beam :: bool
  has_right_beam :: bool

definition Note_init ::
  "Pitch \<Rightarrow> int \<Rightarrow> int option \<Rightarrow> int option \<Rightarrow> bool option \<Rightarrow> bool option
     \<Rightarrow> int option \<Rightarrow> int option \<Rightarrow> bool option \<Rightarrow> bool option \<Rightarrow> bool option \<Rightarrow> Note" where
  "Note_init p d fl sh st et sb eb gr lb rb =
     \<lparr> pitch = p, duration = d,
       flats = (case fl of None \<Rightarrow> 0 | Some v \<Rightarrow> v),
       sharps = (case sh of None \<Rightarrow> 0 | Some v \<Rightarrow> v),
       starts_tie = (case st of None \<Rightarrow> False | Some v \<Rightarrow> v),
       ends_tie = (case et of None \<Rightarrow> False | Some v \<Rightarrow> v),
       starts_beam = (case sb of None \<Rightarrow> 0 | Some v \<Rightarrow> v),
       ends_beam = (case eb of None \<Rightarrow> 0 | Some v \<Rightarrow> v),
       is_gracenote = (case gr of None \<Rightarrow> False | Some v \<Rightarrow> v),
       has_left_beam = (case lb of None \<Rightarrow> False | Some v \<Rightarrow> v),
       has_right_beam = (case rb of None \<Rightarrow> False | Some v \<Rightarrow> v) \<rparr>"

datatype Symbol =
    Clef Pitch
  | Key bool int
  | Meter int int
  | Bar string
  | Null
  | Rest int
  | Note_of Note
  | Chord "Note list"

section \<open>The lexical decoder\<close>

text \<open>
  The decoder and the parser live in kern/humdrum.py. The definitions of this section
  and the next follow the specification (sections 3, 4, 6 and 7), and the tests in
  tests/test_humdrum.py where the specification is silent.
\<close>

text \<open>
  Modelled from the spec: the text conventions of kern/humdrum.py that the specification
  uses without naming them (section 9 leaves them open): the marker that starts a comment
  line, the tie, grace-note and left/right beam characters of a note token, and the shape
  of key-signature and meter tokens, given as the functions that recognise them.
\<close>

record conventions =
  comment_marker :: string
  tie_start :: char
  tie_end :: char
  grace :: char
  left_beam :: char
  right_beam :: char
  key_of :: "string \<Rightarrow> (bool \<times> int) option"
  meter_of :: "string \<Rightarrow> (int \<times> int) option"

definition is_space :: "char \<Rightarrow> bool" where
  "is_space c \<longleftrightarrow> c \<in> set [CHR '' '', CHR 0x09, CHR 0x0A, CHR 0x0B, CHR 0x0C, CHR 0x0D]"

text \<open>
  Modelled from the spec: the whitespace-separated sub-tokens of a token of
  kern/humdrum.py (section 4.2), the maximal runs of characters that are not whitespace.
\<close>

fun sub_tokens_from :: "string \<Rightarrow> string \<Rightarrow> string list" where
  "sub_tokens_from cur [] = (if cur = [] then [] else [cur])"
| "sub_tokens_from cur (c # cs) =
     (if is_space c
      then (if cur = [] then sub_tokens_from [] cs else cur # sub_tokens_from [] cs)
      else sub_tokens_from (cur @ [c]) cs)"

definition sub_tokens :: "string \<Rightarrow> string list" where
  "sub_tokens t = sub_tokens_from [] t"

text \<open>An optional single marker at the head of the remaining text.\<close>

definition optional_mark :: "char \<Rightarrow> string \<Rightarrow> bool \<times> string" where
  "optional_mark m s = (if s \<noteq> [] \<and> hd s = m then (True, tl s) else (False, s))"

text \<open>
  Modelled from the spec: the note decoder of kern/humdrum.py (section 4.2, Note). In
  this order: one or more digits, the duration; a run of one repeated letter, which must
  be the name of a pitch; accidentals, \<open>-\<close> counted in \<open>flats\<close> and \<open>#\<close> in \<open>sharps\<close>;
  the optional tie markers; beam markers, \<open>L\<close> counted in \<open>starts_beam\<close> and \<open>J\<close> in
  \<open>ends_beam\<close>; the optional grace marker; the optional left and right beam flags.
  Anything left over is a decode error, as is a missing duration or a run that names no
  pitch.
\<close>

definition decode_note :: "conventions \<Rightarrow> string \<Rightarrow> Note option" where
  "decode_note cv t =
     (let digits = takeWhile is_ascii_digit t;
          r1 = dropWhile is_ascii_digit t;
          run = takeWhile (\<lambda>c. c = hd r1) r1;
          r2 = dropWhile (\<lambda>c. c = hd r1) r1;
          acc = takeWhile (\<lambda>c. c \<in> set ''-#'') r2;
          r3 = dropWhile (\<lambda>c. c \<in> set ''-#'') r2;
          (st, r4) = optional_mark (tie_start cv) r3;
          (et, r5) = optional_mark (tie_end cv) r4;
          beams = takeWhile (\<lambda>c. c \<in> set ''LJ'') r5;
          r6 = dropWhile (\<lambda>c. c \<in> set ''LJ'') r5;
          (gr, r7) = optional_mark (grace cv) r6;
          (lb, r8) = optional_mark (left_beam cv) r7;
          (rb, r9) = optional_mark (right_beam cv) r8
      in if digits = [] \<or> r1 = [] \<or> r9 \<noteq> [] then None
         else (case Pitch_of_name run of
                 None \<Rightarrow> None
               | Some p \<Rightarrow>
                   Some (Note_init p (int_of_digits digits)
                     (Some (int (length (filter (\<lambda>c. c = CHR ''-'') acc))))
                     (Some (int (length (filter (\<lambda>c. c = CHR ''#'') acc))))
                     (Some st) (Some et)
                     (Some (int (length (filter (\<lambda>c. c = CHR ''L'') beams))))
                     (Some (int (length (filter (\<lambda>c. c = CHR ''J'') beams))))
                     (Some gr) (Some lb) (Some rb))))"

text \<open>
  Modelled from the spec: the token decoder of kern/humdrum.py (section 4.2). A token
  with two or more whitespace-separated sub-tokens is a chord, every sub-token a note.
  Otherwise, in the order of the grammar: a barline (the label is the text after the
  leading \<open>=\<close>), the null token, a rest (digits then \<open>r\<close>), a note, a clef (through
  \<open>pitch_from_clef\<close>), a key signature, a meter. \<open>None\<close> is the decode error.
\<close>

definition decode_token :: "conventions \<Rightarrow> string \<Rightarrow> Symbol option" where
  "decode_token cv t =
     (if 2 \<le> length (sub_tokens t)
      then (case those (map (decode_note cv) (sub_tokens t)) of
              None \<Rightarrow> None
            | Some ns \<Rightarrow> Some (Chord ns))
      else if t \<noteq> [] \<and> hd t = CHR ''='' then Some (Bar (tl t))
      else if t = ''.'' then Some Null
      else if takeWhile is_ascii_digit t \<noteq> [] \<and> dropWhile is_ascii_digit t = ''r''
        then Some (Rest (int_of_digits (takeWhile is_ascii_digit t)))
      else (case decode_note cv t of
              Some n \<Rightarrow> Some (Note_of n)
            | None \<Rightarrow>
               (case CLEF_RE_match t of
                  Some m \<Rightarrow>
                    (case pitch_from_clef t of Inr p \<Rightarrow> Some (Clef p) | Inl e \<Rightarrow> None)
                | None \<Rightarrow>
                   (case key_of cv t of
                      Some (fl, n) \<Rightarrow> Some (Key fl n)
                    | None \<Rightarrow>
                       (case meter_of cv t of
                          Some (n, d) \<Rightarrow> Some (Meter n d)
                        | None \<Rightarrow> None)))))"

section \<open>The spine manager and the parser\<close>

text \<open>
  Modelled from the spec: the errors of the parser of kern/humdrum.py (section 7). A
  decode error carries the token and its 1-based line and column.
\<close>

datatype parse_error =
    HeaderMissing
  | TopologyError
  | FieldCountMismatch
  | DecodeError string nat nat

text \<open>
  Modelled from the spec: the Python exception that surfaces an error of the parser of
  kern/humdrum.py, where section 4.3 names it.
\<close>

fun surfaced_as :: "parse_error \<Rightarrow> py_error option" where
  "surfaced_as HeaderMissing = Some ValueError"
| "surfaced_as FieldCountMismatch = Some ValueError"
| "surfaced_as e = None"

text \<open>
  Modelled from the spec: the calls the parser of kern/humdrum.py makes on its Handler
  (section 6). A spine handle is opaque; the handle \<open>k\<close> stands for the value returned by
  the \<open>k\<close>-th call that returns one (\<open>open_spine\<close> or \<open>branch_spine\<close>), counted from 0.
  \<open>Open_spine k\<close> is a call of \<open>open_spine()\<close> that returned \<open>k\<close>, \<open>Branch_spine s k\<close> a
  call of \<open>branch_spine(s)\<close> that returned \<open>k\<close>.
\<close>

type_synonym spine = nat

datatype call =
    Open_spine spine
  | Close_spine spine
  | Branch_spine spine spine
  | Merge_spines spine spine
  | Append spine Symbol

text \<open>Splitting at a separator, as \<open>str.split(sep)\<close>: text into lines, a line into fields.\<close>

fun split_on :: "char \<Rightarrow> string \<Rightarrow> string list" where
  "split_on sep [] = [[]]"
| "split_on sep (c # cs) =
     (if c = sep then [] # split_on sep cs
      else (case split_on sep cs of [] \<Rightarrow> [[c]] | w # ws \<Rightarrow> (c # w) # ws))"

definition lines_of :: "string \<Rightarrow> string list" where
  "lines_of text = split_on newline text"

definition fields_of :: "string \<Rightarrow> string list" where
  "fields_of line = split_on (CHR 0x09) line"

text \<open>
  Modelled from the spec: the line kinds of the parser of kern/humdrum.py (sections 4.3
  and 6). A comment line begins with the comment marker. A header has the marker \<open>**\<close>
  at the start of every field. A topology line has a control token in every field. A
  blank line after the header carries nothing (the repository's tests end their
  documents with blank lines). Every other line is a data line.
\<close>

definition is_comment :: "conventions \<Rightarrow> string \<Rightarrow> bool" where
  "is_comment cv line \<longleftrightarrow> take (length (comment_marker cv)) line = comment_marker cv"

definition is_header :: "string \<Rightarrow> bool" where
  "is_header line \<longleftrightarrow> list_all (\<lambda>f. take 2 f = ''**'') (fields_of line)"

definition is_control_token :: "string \<Rightarrow> bool" where
  "is_control_token t \<longleftrightarrow> t \<in> set [''*'', ''*-'', ''*+'', ''*^'', ''*v'', ''*x'']"

definition is_topology :: "string \<Rightarrow> bool" where
  "is_topology line \<longleftrightarrow> list_all is_control_token (fields_of line)"

definition is_data :: "conventions \<Rightarrow> string \<Rightarrow> bool" where
  "is_data cv line \<longleftrightarrow> \<not> is_comment cv line \<and> line \<noteq> [] \<and> \<not> is_topology line"

text \<open>
  Modelled from the spec: \<open>apply_control\<close> of the spine manager of kern/humdrum.py
  (section 4.1), with the Handler calls of section 4.3. The columns are read left to
  right; \<open>k\<close> counts the handles returned so far, \<open>out\<close> is the new spine list and \<open>cs\<close>
  the calls, both in column order. \<open>*\<close> keeps the spine; \<open>*-\<close> closes it; \<open>*+\<close> keeps it
  and opens a new spine to its right; \<open>*^\<close> retires it for two branches; \<open>*x\<close> takes the
  next column, which must be \<open>*x\<close> too, and exchanges the two; a run of two or more
  \<open>*v\<close> merges into its leftmost spine. A failure makes no call.
\<close>

fun control ::
  "nat \<Rightarrow> spine list \<Rightarrow> call list \<Rightarrow> spine list \<Rightarrow> string list
     \<Rightarrow> parse_error + (nat \<times> spine list \<times> call list)" where
  "control k out cs [] [] = Inr (k, out, cs)"
| "control k out cs (s # ss) (t # ts) =
     (if t = ''*'' then control k (out @ [s]) cs ss ts
      else if t = ''*-'' then control k out (cs @ [Close_spine s]) ss ts
      else if t = ''*+'' then control (k + 1) (out @ [s, k]) (cs @ [Open_spine k]) ss ts
      else if t = ''*^''
        then control (k + 2) (out @ [k, k + 1])
               (cs @ [Branch_spine s k, Branch_spine s (k + 1)]) ss ts
      else if t = ''*x''
        then (if ss \<noteq> [] \<and> ts \<noteq> [] \<and> hd ts = ''*x''
              then control k (out @ [hd ss, s]) cs (tl ss) (tl ts)
              else Inl TopologyError)
      else if t = ''*v''
        then (let n = length (takeWhile (\<lambda>x. x = ''*v'') ts)
              in if n = 0 \<or> length ss < n then Inl TopologyError
                 else control k (out @ [s])
                        (cs @ map (\<lambda>a. Merge_spines a s) (take n ss))
                        (drop n ss) (drop n ts))
      else Inl TopologyError)"
| "control k out cs [] (t # ts) = Inl TopologyError"
| "control k out cs (s # ss) [] = Inl TopologyError"

definition apply_control ::
  "nat \<Rightarrow> spine list \<Rightarrow> string list \<Rightarrow> bool
     \<Rightarrow> parse_error + (nat \<times> spine list \<times> call list)" where
  "apply_control k live tokens data_follows =
     (case control k [] [] live tokens of
        Inl e \<Rightarrow> Inl e
      | Inr (k', out, cs) \<Rightarrow>
          if out = [] \<and> data_follows then Inl TopologyError else Inr (k', out, cs))"

text \<open>
  Modelled from the spec: the state of the parser of kern/humdrum.py (section 4.3): the
  phase, the live spines in column order, the number of handles returned so far and the
  number of lines read.
\<close>

datatype phase = AwaitHeader | Active | Done

record parser_state =
  phase :: phase
  spines :: "spine list"
  minted :: nat
  lineno :: nat

text \<open>
  Modelled from the spec: the delivery of a data line by the parser of kern/humdrum.py
  (section 4.3, step 3): every field is decoded and appended to the spine of its column,
  left to right; the first field that does not decode ends the parse.
\<close>

definition decode_at :: "conventions \<Rightarrow> nat \<Rightarrow> nat \<Rightarrow> string \<Rightarrow> parse_error + Symbol" where
  "decode_at cv ln col f =
     (case decode_token cv f of
        None \<Rightarrow> Inl (DecodeError f ln col)
      | Some y \<Rightarrow> Inr y)"

fun deliver ::
  "conventions \<Rightarrow> nat \<Rightarrow> nat \<Rightarrow> spine list \<Rightarrow> string list \<Rightarrow> call list \<times> parse_error option" where
  "deliver cv ln col (s # ss) (f # fs) =
     (case decode_at cv ln col f of
        Inl e \<Rightarrow> ([], Some e)
      | Inr y \<Rightarrow> (case deliver cv ln (col + 1) ss fs of (cs, r) \<Rightarrow> (Append s y # cs, r)))"
| "deliver cv ln col ss fs = ([], None)"

text \<open>
  Modelled from the spec: one line of the parser of kern/humdrum.py (section 4.3);
  \<open>rest\<close> holds the lines that follow. The result is the Handler calls of the line and
  the error or the next state.
\<close>

definition step ::
  "conventions \<Rightarrow> parser_state \<Rightarrow> string \<Rightarrow> string list
     \<Rightarrow> call list \<times> (parse_error + parser_state)" where
  "step cv st line rest =
     (let st1 = st\<lparr>lineno := lineno st + 1\<rparr>
      in if phase st = Done then ([], Inr st1)
         else if is_comment cv line then ([], Inr st1)
         else if phase st = AwaitHeader
           then (if is_header line
                 then (let n = length (fields_of line);
                           new = [minted st ..< minted st + n]
                       in (map Open_spine new,
                           Inr (st1\<lparr>phase := Active, spines := new, minted := minted st + n\<rparr>)))
                 else ([], Inl HeaderMissing))
         else if line = [] then ([], Inr st1)
         else if is_topology line
           then (case apply_control (minted st) (spines st) (fields_of line)
                        (list_ex (is_data cv) rest) of
                   Inl e \<Rightarrow> ([], Inl e)
                 | Inr (k, out, cs) \<Rightarrow>
                     (cs, Inr (st1\<lparr>phase := (if out = [] then Done else Active),
                                    spines := out, minted := k\<rparr>)))
         else if length (fields_of line) \<noteq> length (spines st)
           then ([], Inl FieldCountMismatch)
         else (case deliver cv (lineno st + 1) 1 (spines st) (fields_of line) of
                 (cs, Some e) \<Rightarrow> (cs, Inl e)
               | (cs, None) \<Rightarrow> (cs, Inr st1)))"

text \<open>
  Modelled from the spec: the loop of the parser of kern/humdrum.py. \<open>steps\<close> reads the
  lines \<open>ls\<close>, which the lines \<open>suffix\<close> follow; \<open>parse_lines\<close> reads a whole document
  and fails at the end of the input when no header was seen (section 4.3, section 8).
\<close>

fun steps ::
  "conventions \<Rightarrow> parser_state \<Rightarrow> string list \<Rightarrow> string list
     \<Rightarrow> call list \<times> (parse_error + parser_state)" where
  "steps cv st [] suffix = ([], Inr st)"
| "steps cv st (l # ls) suffix =
     (case step cv st l (ls @ suffix) of
        (cs, Inl e) \<Rightarrow> (cs, Inl e)
      | (cs, Inr st') \<Rightarrow>
          (case steps cv st' ls suffix of (cs', r) \<Rightarrow> (cs @ cs', r)))"

definition initial_state :: parser_state where
  "initial_state = \<lparr> phase = AwaitHeader, spines = [], minted = 0, lineno = 0 \<rparr>"

definition parse_lines ::
  "conventions \<Rightarrow> string list \<Rightarrow> call list \<times> (parse_error + parser_state)" where
  "parse_lines cv ls =
     (case steps cv initial_state ls [] of
        (cs, Inl e) \<Rightarrow> (cs, Inl e)
      | (cs, Inr st) \<Rightarrow>
          if phase st = AwaitHeader then (cs, Inl HeaderMissing)
          else (cs, Inr (st\<lparr>phase := Done\<rparr>)))"

definition parse ::
  "conventions \<Rightarrow> string \<Rightarrow> call list \<times> (parse_error + parser_state)" where
  "parse cv text = parse_lines cv (lines_of text)"

section \<open>Vocabulary of the statements\<close>

text \<open>
  The 1-based position of a letter, lower-cased, in the sequence c, d, e, f, g, a, b.
\<close>

definition letter_position :: "char \<Rightarrow> int" where
  "letter_position l = 1 + int (length (takeWhile (\<lambda>x. x \<noteq> lower_char l) ''cdefgab''))"

text \<open>A string of the exact form \<open>*clef<letter><digit>\<close>, letter a-g or A-G, digit 0-7.\<close>

definition exact_clef_form :: "string \<Rightarrow> bool" where
  "exact_clef_form s \<longleftrightarrow>
     length s = 7 \<and> take 5 s = ''*clef''
       \<and> s ! 5 \<in> set ''abcdefgABCDEFG'' \<and> s ! 6 \<in> set ''01234567''"

text \<open>
  Conventions for the examples: the marks of the Humdrum kern notation; no key or meter
  token is recognised.
\<close>

definition kern_marks :: conventions where
  "kern_marks =
     \<lparr> comment_marker = ''!'', tie_start = CHR ''['', tie_end = CHR '']'',
       grace = CHR ''q'', left_beam = CHR ''k'', right_beam = CHR ''K'',
       key_of = (\<lambda>t. None), meter_of = (\<lambda>t. None) \<rparr>"

text \<open>
  The markers that the conventions supply are none of the four characters that the
  specification fixes for accidentals and beams.
\<close>

definition marks_apart :: "conventions \<Rightarrow> bool" where
  "marks_apart cv \<longleftrightarrow>
     list_all (\<lambda>m. m \<notin> set ''-#LJ'')
       [tie_start cv, tie_end cv, grace cv, left_beam cv, right_beam cv]"


text \<open>The first line of a document that is not a comment, if there is one.\<close>

definition first_line :: "conventions \<Rightarrow> string list \<Rightarrow> string option" where
  "first_line cv ls = find (\<lambda>l. \<not> is_comment cv l) ls"

section \<open>Facts about the pitch table\<close>

lemma Pitch_of_value_pitch_value: "Pitch_of_value (pitch_value p) = Inr p"
  by (cases p) (simp_all add: Pitch_of_value_def Pitch_members_def)

lemma Pitch_of_name_pitch_name: "Pitch_of_name (pitch_name p) = Some p"
  by (cases p) (simp_all add: Pitch_of_name_def Pitch_members_def)

lemma Pitch_of_value_Inr_iff: "Pitch_of_value v = Inr p \<longleftrightarrow> pitch_value p = v"
proof
  assume "Pitch_of_value v = Inr p"
  then have "find (\<lambda>p. pitch_value p = v) Pitch_members = Some p"
    by (simp add: Pitch_of_value_def split: option.splits)
  then show "pitch_value p = v"
    by (auto simp: find_Some_iff)
next
  assume "pitch_value p = v"
  with Pitch_of_value_pitch_value [of p] show "Pitch_of_value v = Inr p" by simp
qed

lemma Pitch_of_name_Some_iff: "Pitch_of_name n = Some p \<longleftrightarrow> pitch_name p = n"
proof
  assume "Pitch_of_name n = Some p"
  then show "pitch_name p = n"
    by (auto simp: Pitch_of_name_def find_Some_iff)
next
  assume "pitch_name p = n"
  with Pitch_of_name_pitch_name [of p] show "Pitch_of_name n = Some p" by simp
qed

lemma pitch_value_range: "fst (pitch_value p) \<in> {0..7} \<and> snd (pitch_value p) \<in> {1..7}"
  by (cases p) simp_all

lemma Pitch_of_value_total:
  assumes "0 \<le> ob" "ob \<le> 7" "1 \<le> i" "i \<le> 7"
  shows "\<exists>p. Pitch_of_value (ob, i) = Inr p"
proof -
  have b: "ob = 0 \<or> ob = 1 \<or> ob = 2 \<or> ob = 3 \<or> ob = 4 \<or> ob = 5 \<or> ob = 6 \<or> ob = 7"
    using assms by presburger
  have i: "i = 1 \<or> i = 2 \<or> i = 3 \<or> i = 4 \<or> i = 5 \<or> i = 6 \<or> i = 7"
    using assms by presburger
  show ?thesis using b i
    by (elim disjE) (simp_all add: Pitch_of_value_def Pitch_members_def)
qed

lemma Pitch_of_value_ValueError_iff:
  "Pitch_of_value (ob, i) = Inl ValueError \<longleftrightarrow> \<not> (0 \<le> ob \<and> ob \<le> 7 \<and> 1 \<le> i \<and> i \<le> 7)"
proof
  assume e: "Pitch_of_value (ob, i) = Inl ValueError"
  show "\<not> (0 \<le> ob \<and> ob \<le> 7 \<and> 1 \<le> i \<and> i \<le> 7)"
  proof
    assume "0 \<le> ob \<and> ob \<le> 7 \<and> 1 \<le> i \<and> i \<le> 7"
    then obtain p where "Pitch_of_value (ob, i) = Inr p"
      using Pitch_of_value_total by blast
    with e show False by simp
  qed
next
  assume n: "\<not> (0 \<le> ob \<and> ob \<le> 7 \<and> 1 \<le> i \<and> i \<le> 7)"
  have "\<And>p. Pitch_of_value (ob, i) \<noteq> Inr p"
  proof
    fix p assume "Pitch_of_value (ob, i) = Inr p"
    then have "pitch_value p = (ob, i)" by (simp add: Pitch_of_value_Inr_iff)
    with pitch_value_range [of p] n show False by simp
  qed
  then show "Pitch_of_value (ob, i) = Inl ValueError"
    by (cases "find (\<lambda>p. pitch_value p = (ob, i)) Pitch_members")
       (auto simp: Pitch_of_value_def)
qed

section \<open>Facts about the clef pattern and the note letters\<close>

lemma note_letter_cases:
  assumes "l \<in> set ''abcdefgABCDEFG''"
  shows "l = CHR ''a'' \<or> l = CHR ''b'' \<or> l = CHR ''c'' \<or> l = CHR ''d'' \<or> l = CHR ''e''
     \<or> l = CHR ''f'' \<or> l = CHR ''g'' \<or> l = CHR ''A'' \<or> l = CHR ''B'' \<or> l = CHR ''C''
     \<or> l = CHR ''D'' \<or> l = CHR ''E'' \<or> l = CHR ''F'' \<or> l = CHR ''G''"
  using assms by simp

lemma note_letter_index:
  assumes "l \<in> set ''abcdefgABCDEFG''"
  shows "list_index [''c'', ''d'', ''e'', ''f'', ''g'', ''a'', ''b''] (lower [l])
           = Inr (letter_position l - 1)"
  using note_letter_cases [OF assms]
  by (elim disjE)
     (simp_all add: lower_def lower_char_def ascii_uppercase_def ascii_lowercase_def
      letter_position_def)

lemma letter_position_range:
  assumes "l \<in> set ''abcdefgABCDEFG''"
  shows "1 \<le> letter_position l \<and> letter_position l \<le> 7"
  using note_letter_cases [OF assms]
  by (elim disjE)
     (simp_all add: lower_char_def ascii_uppercase_def ascii_lowercase_def letter_position_def)

lemma other_letter_index:
  assumes "is_ascii_letter l" "l \<notin> set ''abcdefgABCDEFG''"
  shows "list_index [''c'', ''d'', ''e'', ''f'', ''g'', ''a'', ''b''] (lower [l]) = Inl ValueError"
proof -
  have "l \<in> set ''hijklmnopqrstuvwxyzHIJKLMNOPQRSTUVWXYZ''"
    using assms unfolding is_ascii_letter_def ascii_uppercase_def ascii_lowercase_def
    by simp
  then have "l = CHR ''h'' \<or> l = CHR ''i'' \<or> l = CHR ''j'' \<or> l = CHR ''k'' \<or> l = CHR ''l''
     \<or> l = CHR ''m'' \<or> l = CHR ''n'' \<or> l = CHR ''o'' \<or> l = CHR ''p'' \<or> l = CHR ''q''
     \<or> l = CHR ''r'' \<or> l = CHR ''s'' \<or> l = CHR ''t'' \<or> l = CHR ''u'' \<or> l = CHR ''v''
     \<or> l = CHR ''w'' \<or> l = CHR ''x'' \<or> l = CHR ''y'' \<or> l = CHR ''z''
     \<or> l = CHR ''H'' \<or> l = CHR ''I'' \<or> l = CHR ''J'' \<or> l = CHR ''K'' \<or> l = CHR ''L''
     \<or> l = CHR ''M'' \<or> l = CHR ''N'' \<or> l = CHR ''O'' \<or> l = CHR ''P'' \<or> l = CHR ''Q''
     \<or> l = CHR ''R'' \<or> l = CHR ''S'' \<or> l = CHR ''T'' \<or> l = CHR ''U'' \<or> l = CHR ''V''
     \<or> l = CHR ''W'' \<or> l = CHR ''X'' \<or> l = CHR ''Y'' \<or> l = CHR ''Z''"
    by simp
  then show ?thesis
    by (elim disjE)
       (simp_all add: lower_def lower_char_def ascii_uppercase_def ascii_lowercase_def)
qed

lemma digit_value_range:
  assumes "is_ascii_digit d"
  shows "int_of_digits [d] = digit_value d \<and> 0 \<le> digit_value d \<and> digit_value d \<le> 9
     \<and> (digit_value d \<le> 7 \<longleftrightarrow> d \<in> set ''01234567'')"
  using assms unfolding is_ascii_digit_def
  by (auto simp: int_of_digits_def digit_value_def)

lemma list_index_nonneg: "list_index xs x = Inr i \<Longrightarrow> 0 \<le> i"
  by (induction xs arbitrary: i) (auto split: if_splits sum.splits)

lemma split7:
  assumes "7 \<le> length s"
  shows "s = take 5 s @ [s ! 5, s ! 6] @ drop 7 s"
proof -
  have "take 7 s = take 5 s @ [s ! 5, s ! 6]"
  proof -
    have "take 6 s = take 5 s @ [s ! 5]"
      using assms take_Suc_conv_app_nth [of 5 s] by simp
    moreover have "take 7 s = take 6 s @ [s ! 6]"
      using assms take_Suc_conv_app_nth [of 6 s] by simp
    ultimately show ?thesis by simp
  qed
  then show ?thesis
    using append_take_drop_id [of 7 s] by (metis append.assoc)
qed

lemma CLEF_RE_match_SomeD:
  assumes m: "CLEF_RE_match s = Some (n, g)"
  shows "n = [s ! 5] \<and> g = [s ! 6] \<and> is_ascii_letter (s ! 5) \<and> is_ascii_digit (s ! 6)
        \<and> (s = ''*clef'' @ [s ! 5, s ! 6] \<or> s = ''*clef'' @ [s ! 5, s ! 6, newline])"
proof -
  have c: "take 5 s = ''*clef'' \<and> 7 \<le> length s \<and> is_ascii_letter (s ! 5) \<and>
      is_ascii_digit (s ! 6) \<and> (drop 7 s = [] \<or> drop 7 s = [newline])"
    using m unfolding CLEF_RE_match_def by (metis option.distinct(1))
  have ng: "n = [s ! 5] \<and> g = [s ! 6]"
    using m c unfolding CLEF_RE_match_def by (metis option.inject prod.inject)
  have "s = take 5 s @ [s ! 5, s ! 6] @ drop 7 s"
    using c split7 by blast
  then have "s = ''*clef'' @ [s ! 5, s ! 6] @ drop 7 s"
    using c by metis
  then have "s = ''*clef'' @ [s ! 5, s ! 6] \<or> s = ''*clef'' @ [s ! 5, s ! 6, newline]"
    using c by (metis append_Cons append_Nil append_Nil2)
  with c ng show ?thesis by blast
qed

lemma CLEF_RE_match_exact:
  assumes "is_ascii_letter l" "is_ascii_digit d"
  shows "CLEF_RE_match (''*clef'' @ [l, d]) = Some ([l], [d])"
    and "CLEF_RE_match (''*clef'' @ [l, d, newline]) = Some ([l], [d])"
  using assms by (simp_all add: CLEF_RE_match_def)

lemma note_letter_is_letter: "l \<in> set ''abcdefgABCDEFG'' \<Longrightarrow> is_ascii_letter l"
  by (auto simp: is_ascii_letter_def ascii_uppercase_def ascii_lowercase_def)

lemma octave_digit_is_digit: "d \<in> set ''01234567'' \<Longrightarrow> is_ascii_digit d"
  by (auto simp: is_ascii_digit_def)

lemma pitch_from_note_and_octave_letter:
  assumes "l \<in> set ''abcdefgABCDEFG''"
  shows "pitch_from_note_and_octave [l] k = Pitch_of_value (k, letter_position l)"
  using note_letter_index [OF assms] letter_position_range [OF assms]
  by (simp add: pitch_from_note_and_octave_def)

lemma pitch_from_note_and_octave_other:
  assumes "is_ascii_letter l" "l \<notin> set ''abcdefgABCDEFG''"
  shows "pitch_from_note_and_octave [l] k = Inl ValueError"
  using other_letter_index [OF assms]
  by (simp add: pitch_from_note_and_octave_def)

lemma pitch_from_clef_matched:
  assumes "is_ascii_letter l" "is_ascii_digit d"
    and "s = ''*clef'' @ [l, d] \<or> s = ''*clef'' @ [l, d, newline]"
  shows "pitch_from_clef s = pitch_from_note_and_octave [l] (digit_value d)"
  using assms CLEF_RE_match_exact [OF assms(1,2)] digit_value_range [OF assms(2)]
  by (auto simp: pitch_from_clef_def)

lemma pitch_from_note_and_octave_no_assert:
  "pitch_from_note_and_octave note k \<noteq> Inl (AssertionError m)"
proof (cases "list_index [''c'', ''d'', ''e'', ''f'', ''g'', ''a'', ''b''] (lower note)")
  case (Inl e)
  moreover have "e = ValueError"
    using Inl by (auto split: if_splits sum.splits)
  ultimately show ?thesis by (simp add: pitch_from_note_and_octave_def)
next
  case (Inr i)
  then have "0 \<le> i" by (rule list_index_nonneg)
  moreover have "Pitch_of_value (k, 1 + i) \<noteq> Inl (AssertionError m)"
    by (simp add: Pitch_of_value_def split: option.splits)
  ultimately show ?thesis using Inr by (simp add: pitch_from_note_and_octave_def)
qed

lemma pitch_name_shape:
  "pitch_name p = replicate (length (pitch_name p)) (hd (pitch_name p))
   \<and> length (pitch_name p) \<in> {1..4}
   \<and> hd (pitch_name p) \<in> set ''abcdefgABCDEFG''"
  by (cases p) (simp_all add: numeral_eq_Suc)

lemma pitch_value_of_name:
  "snd (pitch_value p) = letter_position (hd (pitch_name p))
   \<and> fst (pitch_value p) =
       (if hd (pitch_name p) \<in> set ''ABCDEFG''
        then 4 - int (length (pitch_name p))
        else 3 + int (length (pitch_name p)))"
  by (cases p)
     (simp_all add: letter_position_def lower_char_def ascii_uppercase_def ascii_lowercase_def)

lemma pitch_value_inj: "pitch_value p = pitch_value q \<longleftrightarrow> p = q"
proof
  assume "pitch_value p = pitch_value q"
  then have "Pitch_of_value (pitch_value p) = Pitch_of_value (pitch_value q)" by simp
  then show "p = q" by (simp add: Pitch_of_value_pitch_value)
qed simp

lemma pitch_name_inj: "pitch_name p = pitch_name q \<longleftrightarrow> p = q"
proof
  assume "pitch_name p = pitch_name q"
  then have "Pitch_of_name (pitch_name p) = Pitch_of_name (pitch_name q)" by simp
  then show "p = q" by (simp add: Pitch_of_name_pitch_name)
qed simp

lemma octave_bands: "(\<lambda>p. fst (pitch_value p)) ` UNIV = {0..7}"
proof
  show "(\<lambda>p. fst (pitch_value p)) ` UNIV \<subseteq> {0..7}"
    using pitch_value_range by blast
  show "{0..7} \<subseteq> (\<lambda>p. fst (pitch_value p)) ` UNIV"
  proof
    fix b :: int assume "b \<in> {0..7}"
    then have "0 \<le> b" "b \<le> 7" by simp_all
    then obtain p where "Pitch_of_value (b, 1) = Inr p"
      using Pitch_of_value_total [of b 1] by auto
    then have "fst (pitch_value p) = b" by (simp add: Pitch_of_value_Inr_iff)
    then show "b \<in> (\<lambda>p. fst (pitch_value p)) ` UNIV" by blast
  qed
qed

lemma run_has_pitch:
  assumes "l \<in> set ''abcdefgABCDEFG''" "n \<in> {1..4}"
  shows "\<exists>p. Pitch_of_name (replicate n l) = Some p"
proof -
  have n: "n = 1 \<or> n = 2 \<or> n = 3 \<or> n = 4" using assms(2) by auto
  show ?thesis using note_letter_cases [OF assms(1)] n
    by (elim disjE) (simp_all add: numeral_eq_Suc Pitch_of_name_def Pitch_members_def)
qed

lemma band_arith:
  assumes "1 \<le> a \<and> a \<le> (4::nat)" "1 \<le> b \<and> b \<le> (4::nat)"
  shows "((if u then 4 - int a else 3 + int a) = (if v then 4 - int b else 3 + int b))
           = (a = b \<and> (u = v))"
  using assms by (cases u; cases v) auto

section \<open>Facts about the decoder\<close>

lemma those_length: "those xs = Some ys \<Longrightarrow> length ys = length xs"
  by (induction xs arbitrary: ys) (auto split: option.splits)

lemma decode_token_chord:
  assumes "decode_token cv t = Some (Chord ns)"
  shows "2 \<le> length (sub_tokens t) \<and> those (map (decode_note cv) (sub_tokens t)) = Some ns"
  using assms unfolding decode_token_def
  by (auto split: if_splits option.splits sum.splits prod.splits)

lemma sub_tokens_single:
  "sub_tokens ''8A'' = [''8A'']" "sub_tokens ''8A-'' = [''8A-'']"
  "sub_tokens ''8A##'' = [''8A##'']" "sub_tokens ''8A##LL'' = [''8A##LL'']"
  by (simp_all add: sub_tokens_def is_space_def)

lemma Pitch_of_name_A: "Pitch_of_name ''A'' = Some Pitch_A"
  by (simp add: Pitch_of_name_def Pitch_members_def)

lemma decode_note_8A: "decode_note cv ''8A'' =
    Some (Note_init Pitch_A 8 None None None None None None None None None)"
  by (simp add: decode_note_def is_ascii_digit_def optional_mark_def Pitch_of_name_A
      Note_init_def int_of_digits_def digit_value_def)

lemma decode_note_8A_flat: "decode_note cv ''8A-'' =
    Some (Note_init Pitch_A 8 (Some 1) None None None None None None None None)"
  by (simp add: decode_note_def is_ascii_digit_def optional_mark_def Pitch_of_name_A
      Note_init_def int_of_digits_def digit_value_def)

lemma decode_note_8A_sharps: "decode_note cv ''8A##'' =
    Some (Note_init Pitch_A 8 None (Some 2) None None None None None None None)"
  by (simp add: decode_note_def is_ascii_digit_def optional_mark_def Pitch_of_name_A
      Note_init_def int_of_digits_def digit_value_def)

lemma decode_note_8A_sharps_beams:
  assumes "marks_apart cv"
  shows "decode_note cv ''8A##LL'' =
    Some (Note_init Pitch_A 8 None (Some 2) None None (Some 2) None None None None)"
proof -
  have m: "CHR ''L'' \<noteq> tie_start cv" "CHR ''L'' \<noteq> tie_end cv"
    using assms by (auto simp: marks_apart_def)
  show ?thesis using m
    by (simp add: decode_note_def is_ascii_digit_def optional_mark_def Pitch_of_name_A
      Note_init_def int_of_digits_def digit_value_def)
qed

lemma decode_token_note:
  assumes "sub_tokens t = [t]" "t \<noteq> []" "hd t \<noteq> CHR ''=''" "t \<noteq> ''.''"
    "dropWhile is_ascii_digit t \<noteq> ''r''" "decode_note cv t = Some n"
  shows "decode_token cv t = Some (Note_of n)"
  using assms by (simp add: decode_token_def)

section \<open>Facts about the parser\<close>

lemma step_comment:
  assumes "phase st = AwaitHeader" "is_comment cv l"
  shows "step cv st l rest = ([], Inr (st\<lparr>lineno := lineno st + 1\<rparr>))"
  using assms by (simp add: step_def)

lemma step_no_header:
  assumes "phase st = AwaitHeader" "\<not> is_comment cv l" "\<not> is_header l"
  shows "step cv st l rest = ([], Inl HeaderMissing)"
  using assms by (simp add: step_def)


lemma steps_no_first_line:
  assumes "phase st = AwaitHeader" "first_line cv ls = None"
  shows "\<exists>st'. steps cv st ls suffix = ([], Inr st') \<and> phase st' = AwaitHeader"
  using assms
proof (induction ls arbitrary: st)
  case Nil
  then show ?case by simp
next
  case (Cons l ls)
  from Cons.prems(2) have c: "is_comment cv l" and r: "first_line cv ls = None"
    by (auto simp: first_line_def split: if_splits)
  have s: "step cv st l (ls @ suffix) = ([], Inr (st\<lparr>lineno := lineno st + 1\<rparr>))"
    using Cons.prems(1) c by (rule step_comment)
  have "phase (st\<lparr>lineno := lineno st + 1\<rparr>) = AwaitHeader"
    using Cons.prems(1) by simp
  from Cons.IH [OF this r] obtain st' where
    "steps cv (st\<lparr>lineno := lineno st + 1\<rparr>) ls suffix = ([], Inr st')" "phase st' = AwaitHeader"
    by blast
  with s show ?case by simp
qed

lemma steps_first_line_no_header:
  assumes "phase st = AwaitHeader" "first_line cv ls = Some h" "\<not> is_header h"
  shows "steps cv st ls suffix = ([], Inl HeaderMissing)"
  using assms
proof (induction ls arbitrary: st)
  case Nil
  then show ?case by (simp add: first_line_def)
next
  case (Cons l ls)
  show ?case
  proof (cases "is_comment cv l")
    case True
    then have r: "first_line cv ls = Some h"
      using Cons.prems(2) by (simp add: first_line_def)
    have s: "step cv st l (ls @ suffix) = ([], Inr (st\<lparr>lineno := lineno st + 1\<rparr>))"
      using Cons.prems(1) True by (rule step_comment)
    have "phase (st\<lparr>lineno := lineno st + 1\<rparr>) = AwaitHeader"
      using Cons.prems(1) by simp
    from Cons.IH [OF this r Cons.prems(3)] s show ?thesis by simp
  next
    case False
    then have "h = l" using Cons.prems(2) by (simp add: first_line_def)
    then have "step cv st l (ls @ suffix) = ([], Inl HeaderMissing)"
      using Cons.prems(1,3) False step_no_header by blast
    then show ?thesis by simp
  qed
qed

lemma parse_lines_header_missing:
  assumes "first_line cv ls = None \<or> (\<exists>h. first_line cv ls = Some h \<and> \<not> is_header h)"
  shows "parse_lines cv ls = ([], Inl HeaderMissing)"
proof -
  have a: "phase initial_state = AwaitHeader" by (simp add: initial_state_def)
  from assms show ?thesis
  proof
    assume "first_line cv ls = None"
    from steps_no_first_line [OF a this, of "[]"] show ?thesis
      by (auto simp: parse_lines_def)
  next
    assume "\<exists>h. first_line cv ls = Some h \<and> \<not> is_header h"
    then obtain h where "first_line cv ls = Some h" "\<not> is_header h" by blast
    from steps_first_line_no_header [OF a this, of "[]"] show ?thesis
      by (simp add: parse_lines_def)
  qed
qed

lemma lines_of_empty: "lines_of [] = [[]]"
  by (simp add: lines_of_def)

lemma blank_is_no_header: "\<not> is_header []"
  by (simp add: is_header_def fields_of_def)

lemma steps_append:
  "steps cv st (a @ b) suffix =
     (case steps cv st a (b @ suffix) of
        (cs, Inl e) \<Rightarrow> (cs, Inl e)
      | (cs, Inr st') \<Rightarrow> (case steps cv st' b suffix of (cs', r) \<Rightarrow> (cs @ cs', r)))"
proof (induction a arbitrary: st)
  case Nil
  then show ?case by (simp split: prod.splits)
next
  case (Cons l a)
  show ?case
  proof (cases "step cv st l (a @ b @ suffix)")
    case (Pair cs r)
    show ?thesis
    proof (cases r)
      case (Inl e)
      with Pair show ?thesis by simp
    next
      case (Inr st')
      with Pair Cons.IH [of st'] show ?thesis
        by (simp split: prod.splits sum.splits)
    qed
  qed
qed

lemma step_field_count:
  assumes "phase st = Active" "is_data cv l" "length (fields_of l) \<noteq> length (spines st)"
  shows "step cv st l rest = ([], Inl FieldCountMismatch)"
  using assms by (simp add: step_def is_data_def)








section \<open>Claims about kern/typing.py\<close>

text \<open>
  C1. For a token \<open>*clef<letter><digit>\<close> with the letter one of a-g or A-G and the digit
  between 0 and 7, \<open>pitch_from_clef\<close> returns the pitch whose octave is the digit and whose
  diatonic index is the 1-based position of the lower-cased letter in c, d, e, f, g, a, b;
  this is the result of \<open>pitch_from_note_and_octave\<close> on the letter and the digit.
\<close>

theorem pitch_from_clef_on_clef_shape:
  assumes "l \<in> set ''abcdefgABCDEFG''" and "d \<in> set ''01234567''"
  shows "\<exists>p. pitch_from_clef (''*clef'' @ [l, d]) = Inr p
           \<and> pitch_value p = (digit_value d, letter_position l)
           \<and> pitch_from_note_and_octave [l] (digit_value d) = Inr p"
proof -
  have dd: "is_ascii_digit d" using assms(2) by (rule octave_digit_is_digit)
  have ll: "is_ascii_letter l" using assms(1) by (rule note_letter_is_letter)
  have c: "pitch_from_clef (''*clef'' @ [l, d]) = pitch_from_note_and_octave [l] (digit_value d)"
    using pitch_from_clef_matched [OF ll dd] by blast
  have n: "pitch_from_note_and_octave [l] (digit_value d)
             = Pitch_of_value (digit_value d, letter_position l)"
    using assms(1) by (rule pitch_from_note_and_octave_letter)
  have "0 \<le> digit_value d \<and> digit_value d \<le> 7"
    using digit_value_range [OF dd] assms(2) by blast
  then obtain p where p: "Pitch_of_value (digit_value d, letter_position l) = Inr p"
    using Pitch_of_value_total letter_position_range [OF assms(1)] by blast
  then have "pitch_value p = (digit_value d, letter_position l)"
    by (simp add: Pitch_of_value_Inr_iff)
  with c n p show ?thesis by simp
qed

theorem pitch_from_clef_on_clef_shape_witness:
  "CHR ''F'' \<in> set ''abcdefgABCDEFG'' \<and> CHR ''4'' \<in> set ''01234567''
     \<and> (\<exists>p. pitch_from_clef ''*clefF4'' = Inr p \<and> pitch_value p = (4, 4)
            \<and> pitch_from_note_and_octave ''F'' 4 = Inr p)"
  using pitch_from_clef_on_clef_shape [of "CHR ''F''" "CHR ''4''"]
  by (simp add: digit_value_def letter_position_def lower_char_def
      ascii_uppercase_def ascii_lowercase_def)

text \<open>
  C2. Every pitch has a value \<open>(octave, diatonic index)\<close> with the index in 1..7 and the
  octave in 0..7, and all eight octaves occur. Every name is a run of one to four copies of
  one letter a-g or A-G, the index is the position of that letter, a single upper-case letter
  is octave 3 and a single lower-case letter octave 4, every further upper-case letter lowers
  the octave by one and every further lower-case letter raises it by one. Every such run
  names a pitch, different pitches have different names and different values, and two
  pitches are in one octave exactly when their runs have the same case and length.
\<close>

theorem Pitch_register_encoding:
  "fst (pitch_value p) \<in> {0..7} \<and> snd (pitch_value p) \<in> {1..7}
   \<and> (\<lambda>p. fst (pitch_value p)) ` UNIV = {0..7}
   \<and> pitch_name p = replicate (length (pitch_name p)) (hd (pitch_name p))
   \<and> length (pitch_name p) \<in> {1..4}
   \<and> hd (pitch_name p) \<in> set ''abcdefgABCDEFG''
   \<and> snd (pitch_value p) = letter_position (hd (pitch_name p))
   \<and> fst (pitch_value p) =
       (if hd (pitch_name p) \<in> set ''ABCDEFG''
        then 4 - int (length (pitch_name p))
        else 3 + int (length (pitch_name p)))
   \<and> (l \<in> set ''abcdefgABCDEFG'' \<and> n \<in> {1..4}
        \<longrightarrow> (\<exists>r. Pitch_of_name (replicate n l) = Some r))
   \<and> (pitch_name p = pitch_name q \<longleftrightarrow> p = q)
   \<and> (pitch_value p = pitch_value q \<longleftrightarrow> p = q)
   \<and> (fst (pitch_value p) = fst (pitch_value q) \<longleftrightarrow>
        length (pitch_name p) = length (pitch_name q)
        \<and> (hd (pitch_name p) \<in> set ''ABCDEFG'' \<longleftrightarrow> hd (pitch_name q) \<in> set ''ABCDEFG''))"
proof -
  have band: "fst (pitch_value p) = fst (pitch_value q) \<longleftrightarrow>
        length (pitch_name p) = length (pitch_name q)
        \<and> (hd (pitch_name p) \<in> set ''ABCDEFG'' \<longleftrightarrow> hd (pitch_name q) \<in> set ''ABCDEFG'')"
  proof -
    have lp: "1 \<le> length (pitch_name p) \<and> length (pitch_name p) \<le> 4"
      using pitch_name_shape [of p] by simp
    have lq: "1 \<le> length (pitch_name q) \<and> length (pitch_name q) \<le> 4"
      using pitch_name_shape [of q] by simp
    have vp: "fst (pitch_value p) =
       (if hd (pitch_name p) \<in> set ''ABCDEFG''
        then 4 - int (length (pitch_name p))
        else 3 + int (length (pitch_name p)))"
      using pitch_value_of_name [of p] by blast
    have vq: "fst (pitch_value q) =
       (if hd (pitch_name q) \<in> set ''ABCDEFG''
        then 4 - int (length (pitch_name q))
        else 3 + int (length (pitch_name q)))"
      using pitch_value_of_name [of q] by blast
    show ?thesis
      unfolding vp vq using lp lq by (rule band_arith)
  qed
  show ?thesis
    using pitch_value_range [of p] octave_bands pitch_name_shape [of p]
      pitch_value_of_name [of p] run_has_pitch [of l n] pitch_name_inj [of p q]
      pitch_value_inj [of p q] band
    by blast
qed

theorem Pitch_register_encoding_witness:
  "CHR ''C'' \<in> set ''abcdefgABCDEFG'' \<and> (3::nat) \<in> {1..4}
   \<and> pitch_value Pitch_C = (3, 1) \<and> pitch_value Pitch_c = (4, 1)
   \<and> Pitch_of_name ''CCC'' = Some Pitch_CCC \<and> pitch_value Pitch_CCC = (1, 1)
   \<and> pitch_name Pitch_C \<noteq> pitch_name Pitch_c
   \<and> fst (pitch_value Pitch_C) \<noteq> fst (pitch_value Pitch_c)"
  using Pitch_register_encoding [of Pitch_C "CHR ''C''" 3 Pitch_c]
  by (simp add: numeral_eq_Suc Pitch_of_name_def Pitch_members_def)

text \<open>
  C9. A note constructed from a pitch and a duration only has no flats, no sharps, no beam
  starts or ends, and is not tied, not a grace note and has no left or right beam.
\<close>

theorem Note_defaults:
  "Note_init p d None None None None None None None None None =
     \<lparr> pitch = p, duration = d, flats = 0, sharps = 0, starts_tie = False, ends_tie = False,
       starts_beam = 0, ends_beam = 0, is_gracenote = False, has_left_beam = False,
       has_right_beam = False \<rparr>"
  by (simp add: Note_init_def)

text \<open>
  C10, as stated: \<open>pitch_from_clef\<close> returns a pitch only for strings of the exact form
  \<open>*clef<letter><digit>\<close>. The pattern ends in \<open>$\<close>, which also matches before a final
  newline, so the seven characters followed by a newline are accepted as well.
\<close>

theorem pitch_from_clef_trailing_newline:
  "\<not> exact_clef_form (''*clefF4'' @ [CHR 0x0A])
     \<and> pitch_from_clef (''*clefF4'' @ [CHR 0x0A]) = Inr Pitch_f"
  by (simp add: exact_clef_form_def pitch_from_clef_def CLEF_RE_match_def newline_def
      is_ascii_letter_def is_ascii_digit_def ascii_uppercase_def ascii_lowercase_def
      pitch_from_note_and_octave_def lower_def lower_char_def int_of_digits_def
      digit_value_def Pitch_of_value_def Pitch_members_def)

text \<open>
  C10, amended. On \<open>*clef<letter><digit>\<close>, alone or followed by one newline, with an ASCII
  letter and an ASCII digit, \<open>pitch_from_clef\<close> returns the pitch of that digit and letter
  when the letter is one of a-g or A-G and the digit is at most 7, and raises
  \<open>ValueError\<close> otherwise. On every other string it raises the \<open>AssertionError\<close> of the
  clef pattern. The assertion on the index in \<open>pitch_from_note_and_octave\<close> never fails.
\<close>

theorem pitch_from_clef_cases:
  "(is_ascii_letter l \<and> is_ascii_digit d
      \<and> (s = ''*clef'' @ [l, d] \<or> s = ''*clef'' @ [l, d, newline])
    \<longrightarrow> (if l \<in> set ''abcdefgABCDEFG'' \<and> d \<in> set ''01234567''
         then \<exists>p. pitch_from_clef s = Inr p
                \<and> pitch_value p = (digit_value d, letter_position l)
         else pitch_from_clef s = Inl ValueError))
   \<and> ((\<forall>l d. is_ascii_letter l \<and> is_ascii_digit d
          \<longrightarrow> s \<noteq> ''*clef'' @ [l, d] \<and> s \<noteq> ''*clef'' @ [l, d, newline])
    \<longrightarrow> pitch_from_clef s = Inl (AssertionError ''Invalid clef specification.''))
   \<and> pitch_from_note_and_octave note k \<noteq> Inl (AssertionError m)"
proof (intro conjI impI)
  assume a: "is_ascii_letter l \<and> is_ascii_digit d
      \<and> (s = ''*clef'' @ [l, d] \<or> s = ''*clef'' @ [l, d, newline])"
  then have c: "pitch_from_clef s = pitch_from_note_and_octave [l] (digit_value d)"
    using pitch_from_clef_matched by blast
  show "if l \<in> set ''abcdefgABCDEFG'' \<and> d \<in> set ''01234567''
         then \<exists>p. pitch_from_clef s = Inr p
                \<and> pitch_value p = (digit_value d, letter_position l)
         else pitch_from_clef s = Inl ValueError"
  proof (cases "l \<in> set ''abcdefgABCDEFG''")
    case False
    then show ?thesis using a c pitch_from_note_and_octave_other by auto
  next
    case True
    then have n: "pitch_from_clef s = Pitch_of_value (digit_value d, letter_position l)"
      using c pitch_from_note_and_octave_letter by simp
    show ?thesis
    proof (cases "d \<in> set ''01234567''")
      case d: True
      have "0 \<le> digit_value d \<and> digit_value d \<le> 7"
        using digit_value_range [of d] a d by blast
      then obtain p where p: "Pitch_of_value (digit_value d, letter_position l) = Inr p"
        using Pitch_of_value_total letter_position_range [OF True] by blast
      then have "pitch_value p = (digit_value d, letter_position l)"
        by (simp add: Pitch_of_value_Inr_iff)
      with n p True d show ?thesis by simp
    next
      case d: False
      have "\<not> digit_value d \<le> 7"
        using digit_value_range [of d] a d by blast
      then have "Pitch_of_value (digit_value d, letter_position l) = Inl ValueError"
        by (simp add: Pitch_of_value_ValueError_iff)
      with n d show ?thesis by simp
    qed
  qed
next
  assume a: "\<forall>l d. is_ascii_letter l \<and> is_ascii_digit d
          \<longrightarrow> s \<noteq> ''*clef'' @ [l, d] \<and> s \<noteq> ''*clef'' @ [l, d, newline]"
  have "CLEF_RE_match s = None"
  proof (cases "CLEF_RE_match s")
    case (Some r)
    obtain n g where "r = (n, g)" by (cases r)
    with Some a CLEF_RE_match_SomeD [of s n g] show ?thesis by blast
  qed simp
  then show "pitch_from_clef s = Inl (AssertionError ''Invalid clef specification.'')"
    by (simp add: pitch_from_clef_def)
next
  show "pitch_from_note_and_octave note k \<noteq> Inl (AssertionError m)"
    by (rule pitch_from_note_and_octave_no_assert)
qed


theorem pitch_from_clef_cases_witness:
  "is_ascii_letter (CHR ''H'') \<and> is_ascii_digit (CHR ''4'')
   \<and> pitch_from_clef ''*clefH4'' = Inl ValueError
   \<and> pitch_from_clef ''clefG2'' = Inl (AssertionError ''Invalid clef specification.'')"
proof -
  have h: "is_ascii_letter (CHR ''H'') \<and> is_ascii_digit (CHR ''4'')"
    by (simp add: is_ascii_letter_def is_ascii_digit_def ascii_uppercase_def
        ascii_lowercase_def)
  have n: "\<forall>l d. is_ascii_letter l \<and> is_ascii_digit d
          \<longrightarrow> ''clefG2'' \<noteq> ''*clef'' @ [l, d] \<and> ''clefG2'' \<noteq> ''*clef'' @ [l, d, newline]"
    by simp
  show ?thesis
    using h n pitch_from_clef_cases [of "CHR ''H''" "CHR ''4''" "''*clefH4''"]
      pitch_from_clef_cases [of _ _ "''clefG2''"]
    by simp
qed

section \<open>Claims about the lexical decoder\<close>

text \<open>
  C3. The decoder maps the token \<open>8A\<close> to the note of pitch A and duration 8 with no
  flats and no sharps, \<open>8A-\<close> to the same note with one flat, \<open>8A##\<close> to the same note
  with two sharps, and \<open>8A##LL\<close> to the note with two sharps and two beam starts, for all
  conventions whose markers are none of \<open>-\<close>, \<open>#\<close>, \<open>L\<close>, \<open>J\<close>. The notes are written as the
  test of the repository constructs them.
\<close>

theorem decode_test_tokens:
  assumes "marks_apart cv"
  shows "decode_token cv ''8A'' =
      Some (Note_of (Note_init Pitch_A 8 None None None None None None None None None))
    \<and> decode_token cv ''8A-'' =
      Some (Note_of (Note_init Pitch_A 8 (Some 1) None None None None None None None None))
    \<and> decode_token cv ''8A##'' =
      Some (Note_of (Note_init Pitch_A 8 None (Some 2) None None None None None None None))
    \<and> decode_token cv ''8A##LL'' =
      Some (Note_of (Note_init Pitch_A 8 None (Some 2) None None (Some 2) None None None None))"
proof (intro conjI)
  show "decode_token cv ''8A'' =
      Some (Note_of (Note_init Pitch_A 8 None None None None None None None None None))"
    by (rule decode_token_note) (simp_all add: sub_tokens_single decode_note_8A is_ascii_digit_def)
  show "decode_token cv ''8A-'' =
      Some (Note_of (Note_init Pitch_A 8 (Some 1) None None None None None None None None))"
    by (rule decode_token_note)
      (simp_all add: sub_tokens_single decode_note_8A_flat is_ascii_digit_def)
  show "decode_token cv ''8A##'' =
      Some (Note_of (Note_init Pitch_A 8 None (Some 2) None None None None None None None))"
    by (rule decode_token_note)
      (simp_all add: sub_tokens_single decode_note_8A_sharps is_ascii_digit_def)
  show "decode_token cv ''8A##LL'' =
      Some (Note_of (Note_init Pitch_A 8 None (Some 2) None None (Some 2) None None None None))"
    by (rule decode_token_note)
      (simp_all add: sub_tokens_single decode_note_8A_sharps_beams [OF assms] is_ascii_digit_def)
qed


theorem decode_test_tokens_witness:
  "marks_apart kern_marks
   \<and> decode_token kern_marks ''8A##LL'' =
      Some (Note_of \<lparr> pitch = Pitch_A, duration = 8, flats = 0, sharps = 2,
        starts_tie = False, ends_tie = False, starts_beam = 2, ends_beam = 0,
        is_gracenote = False, has_left_beam = False, has_right_beam = False \<rparr>)"
proof -
  have m: "marks_apart kern_marks"
    by (simp add: marks_apart_def kern_marks_def)
  show ?thesis
    using m decode_test_tokens [OF m] by (simp add: Note_init_def)
qed

text \<open>
  C7. A token that decodes to a chord has at least one note: the chord has one note for
  each of the sub-tokens of the token, and there are two or more.
\<close>

theorem chord_notes_nonempty:
  assumes "decode_token cv t = Some (Chord ns)"
  shows "ns \<noteq> [] \<and> length ns = length (sub_tokens t)"
proof -
  have c: "2 \<le> length (sub_tokens t) \<and> those (map (decode_note cv) (sub_tokens t)) = Some ns"
    using assms by (rule decode_token_chord)
  then have "length ns = length (sub_tokens t)"
    using those_length [of "map (decode_note cv) (sub_tokens t)" ns] by simp
  with c show ?thesis by auto
qed

theorem chord_notes_nonempty_witness:
  "decode_token kern_marks ''4c 4e'' =
     Some (Chord [Note_init Pitch_c 4 (Some 0) (Some 0) (Some False) (Some False)
                    (Some 0) (Some 0) (Some False) (Some False) (Some False),
                  Note_init Pitch_e 4 (Some 0) (Some 0) (Some False) (Some False)
                    (Some 0) (Some 0) (Some False) (Some False) (Some False)])
   \<and> [Note_init Pitch_c 4 (Some 0) (Some 0) (Some False) (Some False)
                    (Some 0) (Some 0) (Some False) (Some False) (Some False),
       Note_init Pitch_e 4 (Some 0) (Some 0) (Some False) (Some False)
                    (Some 0) (Some 0) (Some False) (Some False) (Some False)] \<noteq> []"
proof -
  have s: "sub_tokens ''4c 4e'' = [''4c'', ''4e'']"
    by (simp add: sub_tokens_def is_space_def)
  have c: "decode_note kern_marks ''4c'' =
      Some (Note_init Pitch_c 4 (Some 0) (Some 0) (Some False) (Some False)
                    (Some 0) (Some 0) (Some False) (Some False) (Some False))"
    by (simp add: decode_note_def is_ascii_digit_def optional_mark_def kern_marks_def
        Pitch_of_name_def Pitch_members_def int_of_digits_def digit_value_def)
  have e: "decode_note kern_marks ''4e'' =
      Some (Note_init Pitch_e 4 (Some 0) (Some 0) (Some False) (Some False)
                    (Some 0) (Some 0) (Some False) (Some False) (Some False))"
    by (simp add: decode_note_def is_ascii_digit_def optional_mark_def kern_marks_def
        Pitch_of_name_def Pitch_members_def int_of_digits_def digit_value_def)
  have h: "decode_token kern_marks ''4c 4e'' =
     Some (Chord [Note_init Pitch_c 4 (Some 0) (Some 0) (Some False) (Some False)
                    (Some 0) (Some 0) (Some False) (Some False) (Some False),
                  Note_init Pitch_e 4 (Some 0) (Some 0) (Some False) (Some False)
                    (Some 0) (Some 0) (Some False) (Some False) (Some False)])"
    unfolding decode_token_def s by (simp add: c e)
  show ?thesis
    using h chord_notes_nonempty [OF h] by blast
qed

section \<open>Claims about the parser\<close>



text \<open>
  C5. A document that is empty, or has no line that is not a comment, or whose first such
  line is not a header, fails with the header-missing error, a \<open>ValueError\<close>, and makes no
  Handler call.
\<close>

theorem no_header_fails:
  assumes "doc = [] \<or> first_line cv (lines_of doc) = None
     \<or> (\<exists>h. first_line cv (lines_of doc) = Some h \<and> \<not> is_header h)"
  shows "parse cv doc = ([], Inl HeaderMissing) \<and> surfaced_as HeaderMissing = Some ValueError"
proof -
  have "first_line cv (lines_of doc) = None
     \<or> (\<exists>h. first_line cv (lines_of doc) = Some h \<and> \<not> is_header h)"
  proof (cases "doc = []")
    case True
    then show ?thesis
      using blank_is_no_header by (cases "is_comment cv []") (simp_all add: lines_of_empty first_line_def)
  next
    case False
    then show ?thesis using assms by blast
  qed
  then show ?thesis
    using parse_lines_header_missing by (simp add: parse_def)
qed

theorem no_header_fails_witness:
  "first_line kern_marks (lines_of ''4c'') = Some ''4c'' \<and> \<not> is_header ''4c''
   \<and> parse kern_marks ''4c'' = ([], Inl HeaderMissing)
   \<and> parse kern_marks [] = ([], Inl HeaderMissing)"
proof -
  have a: "first_line kern_marks (lines_of ''4c'') = Some ''4c''" by code_simp
  have b: "\<not> is_header ''4c''" by code_simp
  show ?thesis
    using a b no_header_fails [of "''4c''" kern_marks] no_header_fails [of "[]" kern_marks]
    by blast
qed

text \<open>
  C6. When the parser, with live spines, comes to a data line whose number of
  tab-separated fields is not the number of live spines, the parse fails with the
  field-count-mismatch error, a \<open>ValueError\<close>; the Handler calls are those made before the
  line, and the line itself makes none.
\<close>

theorem field_count_mismatch_fails:
  assumes "steps cv initial_state pre (l # rest) = (tr, Inr st)"
    and "phase st = Active" and "is_data cv l"
    and "length (fields_of l) \<noteq> length (spines st)"
  shows "parse_lines cv (pre @ l # rest) = (tr, Inl FieldCountMismatch)
     \<and> step cv st l rest = ([], Inl FieldCountMismatch)
     \<and> surfaced_as FieldCountMismatch = Some ValueError"
proof -
  have s: "step cv st l rest = ([], Inl FieldCountMismatch)"
    using assms(2-4) by (rule step_field_count)
  then have "steps cv st (l # rest) [] = ([], Inl FieldCountMismatch)" by simp
  then have "steps cv initial_state (pre @ l # rest) [] = (tr, Inl FieldCountMismatch)"
    using assms(1) by (simp add: steps_append)
  then show ?thesis using s by (simp add: parse_lines_def)
qed

theorem field_count_mismatch_fails_witness:
  "steps kern_marks initial_state [''**kern''] [''4c'' @ [CHR 0x09] @ ''4d'']
     = ([Open_spine 0], Inr \<lparr> phase = Active, spines = [0], minted = 1, lineno = 1 \<rparr>)
   \<and> is_data kern_marks (''4c'' @ [CHR 0x09] @ ''4d'')
   \<and> length (fields_of (''4c'' @ [CHR 0x09] @ ''4d'')) = 2
   \<and> parse_lines kern_marks ([''**kern''] @ [''4c'' @ [CHR 0x09] @ ''4d''])
     = ([Open_spine 0], Inl FieldCountMismatch)"
proof -
  let ?l = "''4c'' @ [CHR 0x09] @ ''4d''"
  let ?st = "\<lparr> phase = Active, spines = [0], minted = 1, lineno = 1 \<rparr>"
  have a: "steps kern_marks initial_state [''**kern''] [?l] = ([Open_spine 0], Inr ?st)"
    by code_simp
  have b: "phase ?st = Active" by simp
  have c: "is_data kern_marks ?l" by code_simp
  have n: "length (fields_of ?l) = 2" by code_simp
  have d: "length (fields_of ?l) \<noteq> length (spines ?st)" unfolding n by simp
  show ?thesis
    using a c n field_count_mismatch_fails [OF a b c d] by simp
qed


end
